theory Spec2Isabelle
  imports Complex_Main "HOL-Library.Finite_Map" "HOL-Library.Char_ord" "HOL-Library.List_Lexorder"
begin

section \<open>Python values\<close>

text \<open>
  The pipeline moves decoded JSON around without checking its shape: the feed's answer, the
  candidate dictionaries, the oracle's answer and the persisted file are all values of
  Python's JSON types. They are modelled by one datatype.

  \<^item> \<open>True\<close> and \<open>False\<close> are the numbers 1 and 0, as in Python, where \<open>bool\<close> is a
    subclass of \<open>int\<close>, \<open>True == 1\<close> and both hash alike. With that, and with dictionaries
    as finite maps, HOL equality on \<open>pyval\<close> is Python's \<open>==\<close>.
  \<^item> A number is its exact value as a rational; the program only copies numbers, compares
    them for equality and tests them for truth. NaN and the infinities are left out.
  \<^item> A string is a list of HOL characters, which are the code points below 256.
    \<open>lower\<close> changes the letters A to Z only; the terms of the keyword list are
    ASCII, and no other character below 256 has an ASCII lower-case form, so the keyword
    filter is the same as with Python's \<open>lower\<close>. \<open>strip\<close> removes the white space
    below 256.
  \<^item> A finite map does not keep the insertion order of a \<open>dict\<close>; the order is only seen
    by iteration (\<open>py_iter\<close> below).
\<close>

datatype pyval =
    PyNone
  | PyNum rat
  | PyStr string
  | PyList "pyval list"
  | PyDict "(string, pyval) fmap"

type_synonym pydict = "(string, pyval) fmap"

abbreviation PyTrue :: pyval where "PyTrue \<equiv> PyNum 1"
abbreviation PyFalse :: pyval where "PyFalse \<equiv> PyNum 0"

datatype py_error =
    KeyError
  | AttributeError
  | TypeError
  | IndexError
  | JSONDecodeError
  | FileNotFoundError
  | RequestException
  | APIError

text \<open>Sequencing of computations that may raise: the first exception wins.\<close>

definition and_then :: "py_error + 'a \<Rightarrow> ('a \<Rightarrow> py_error + 'b) \<Rightarrow> py_error + 'b" where
  "and_then m f = (case m of Inl e \<Rightarrow> Inl e | Inr x \<Rightarrow> f x)"

text \<open>\<open>d.get(k, default)\<close> on a dictionary.\<close>

definition py_get :: "pydict \<Rightarrow> string \<Rightarrow> pyval \<Rightarrow> pyval" where
  "py_get d k dflt = (case fmlookup d k of Some v \<Rightarrow> v | None \<Rightarrow> dflt)"

text \<open>\<open>x.get(k, default)\<close> on any value: only a dictionary has the method.\<close>

definition attr_get :: "pyval \<Rightarrow> string \<Rightarrow> pyval \<Rightarrow> py_error + pyval" where
  "attr_get x k dflt = (case x of PyDict d \<Rightarrow> Inr (py_get d k dflt) | _ \<Rightarrow> Inl AttributeError)"

text \<open>Truth value of a value in a condition.\<close>

fun py_truthy :: "pyval \<Rightarrow> bool" where
  "py_truthy PyNone = False"
| "py_truthy (PyNum n) = (n \<noteq> 0)"
| "py_truthy (PyStr s) = (s \<noteq> [])"
| "py_truthy (PyList xs) = (xs \<noteq> [])"
| "py_truthy (PyDict d) = (d \<noteq> fmempty)"

text \<open>Lists and dictionaries cannot be members of a \<open>set\<close>: hashing them raises.\<close>

fun py_hashable :: "pyval \<Rightarrow> bool" where
  "py_hashable (PyList xs) = False"
| "py_hashable (PyDict d) = False"
| "py_hashable v = True"

text \<open>
  \<open>for item in x\<close>: the items of a list, the characters of a string, the keys of a
  dictionary (here in sorted order, the model not keeping the insertion order); any other
  value is not iterable.
\<close>

fun py_iter :: "pyval \<Rightarrow> py_error + pyval list" where
  "py_iter (PyList xs) = Inr xs"
| "py_iter (PyStr s) = Inr (map (\<lambda>c. PyStr [c]) s)"
| "py_iter (PyDict d) = Inr (map PyStr (sorted_list_of_fset (fmdom d)))"
| "py_iter v = Inl TypeError"

text \<open>\<open>x[0]\<close>.\<close>

fun index0 :: "pyval \<Rightarrow> py_error + pyval" where
  "index0 (PyList []) = Inl IndexError"
| "index0 (PyList (y # ys)) = Inr y"
| "index0 (PyStr []) = Inl IndexError"
| "index0 (PyStr (c # cs)) = Inr (PyStr [c])"
| "index0 (PyDict d) = Inl KeyError"
| "index0 v = Inl TypeError"

text \<open>\<open>x[k]\<close> for a string key \<open>k\<close>.\<close>

fun subscript :: "pyval \<Rightarrow> string \<Rightarrow> py_error + pyval" where
  "subscript (PyDict d) k = (case fmlookup d k of Some v \<Rightarrow> Inr v | None \<Rightarrow> Inl KeyError)"
| "subscript v k = Inl TypeError"

section \<open>Strings\<close>

definition lower_char :: "char \<Rightarrow> char" where
  "lower_char c = (if CHR ''A'' \<le> c \<and> c \<le> CHR ''Z'' then char_of (of_char c + (32::nat)) else c)"

definition str_lower :: "string \<Rightarrow> string" where
  "str_lower s = map lower_char s"

fun starts_with :: "string \<Rightarrow> string \<Rightarrow> bool" where
  "starts_with [] ys = True"
| "starts_with (x # xs) [] = False"
| "starts_with (x # xs) (y # ys) = (x = y \<and> starts_with xs ys)"

text \<open>\<open>needle in hay\<close> on strings: \<open>needle\<close> starts at some position of \<open>hay\<close>.\<close>

fun py_in_str :: "string \<Rightarrow> string \<Rightarrow> bool" where
  "py_in_str needle [] = (needle = [])"
| "py_in_str needle (y # ys) = (starts_with needle (y # ys) \<or> py_in_str needle ys)"

text \<open>
  The characters that \<open>str.strip()\<close> removes, among the characters of the model: the
  control characters 9 to 13 and 28 to 31, the space, and the two white-space characters
  of Latin-1, next line (133) and no-break space (160).
\<close>

definition is_space :: "char \<Rightarrow> bool" where
  "is_space c =
     (let n = (of_char c :: nat)
      in (9 \<le> n \<and> n \<le> 13) \<or> (28 \<le> n \<and> n \<le> 32) \<or> n = 133 \<or> n = 160)"

definition py_strip :: "string \<Rightarrow> string" where
  "py_strip s = rev (dropWhile is_space (rev (dropWhile is_space s)))"

text \<open>
  The notion of the specification, not taken from the code: two characters are the same
  up to case when they are equal, or one is a capital letter and the other is the small
  letter at the same place of the alphabet. It is what the keyword filter is compared
  with below.
\<close>

definition upper_letters :: string where
  "upper_letters = ''ABCDEFGHIJKLMNOPQRSTUVWXYZ''"

definition lower_letters :: string where
  "lower_letters = ''abcdefghijklmnopqrstuvwxyz''"

definition same_letter :: "char \<Rightarrow> char \<Rightarrow> bool" where
  "same_letter c d =
     (c = d \<or> (c, d) \<in> set (zip upper_letters lower_letters)
            \<or> (d, c) \<in> set (zip upper_letters lower_letters))"

text \<open>\<open>k in x\<close> for a string \<open>k\<close>: a key of a dictionary, a substring of a string, an item of a list.\<close>

fun py_contains :: "pyval \<Rightarrow> string \<Rightarrow> py_error + bool" where
  "py_contains (PyDict d) k = Inr (k |\<in>| fmdom d)"
| "py_contains (PyStr s) k = Inr (py_in_str k s)"
| "py_contains (PyList xs) k = Inr (PyStr k \<in> set xs)"
| "py_contains v k = Inl TypeError"

section \<open>The classifier (cve\_analyzer.py)\<close>

record OTThreat =
  cve_id :: pyval
  cvss_score :: pyval
  description :: pyval
  ai_insight :: pyval
  ot_keywords_found :: pyval
  timestamp :: pyval

text \<open>
  The dataclass annotates its fields (\<open>str\<close>, \<open>float\<close>, \<open>List[str]\<close>), but Python does
  not enforce annotations, and the classifier and the loader store whatever they are given;
  so every field is a \<open>pyval\<close>.
\<close>

definition ot_keywords :: "string list" where
  "ot_keywords =
    [''SCADA'', ''PLC'', ''HMI'', ''DCS'', ''ICS'', ''RTU'',
     ''Siemens'', ''Rockwell'', ''Allen-Bradley'', ''Schneider'', ''ABB'', ''Emerson'',
     ''Modbus'', ''DNP3'', ''OPC'', ''PROFINET'', ''EtherNet/IP'', ''BACnet'',
     ''industrial'', ''factory'', ''manufacturing'', ''critical infrastructure'',
     ''water treatment'', ''power grid'', ''energy'', ''oil gas'', ''chemical plant'',
     ''OT'', ''operational technology'', ''industrial control'', ''process control'']"

text \<open>\<open>[k for k in self.ot_keywords if k.lower() in description.lower()]\<close>\<close>

definition found_keywords :: "string \<Rightarrow> string list" where
  "found_keywords descr =
     filter (\<lambda>k. py_in_str (str_lower k) (str_lower descr)) ot_keywords"

definition is_ot_related :: "string \<Rightarrow> bool" where
  "is_ot_related descr =
     list_ex (\<lambda>keyword. py_in_str keyword (str_lower descr)) (map str_lower ot_keywords)"

text \<open>
  The oracle is outside the program. What the program sends is the fixed prompt template
  filled with three values, so a request is recorded as those three values; the third is
  what \<open>cvss_score if cvss_score else 'Not specified'\<close> yields. The answer of
  \<open>client.responses.create\<close> is either an exception or the text \<open>response.output_text\<close>;
  it may depend on the requests made before. \<open>json.loads\<close> and the clock are outside as
  well. The state that the calls change is the log of requests and the number of clock reads.
\<close>

record oracle_request =
  req_cve_id :: pyval
  req_description :: string
  req_cvss :: pyval

record services =
  responses_create :: "oracle_request list \<Rightarrow> oracle_request \<Rightarrow> py_error + string"
  json_loads :: "string \<Rightarrow> py_error + pyval"
  now_iso :: "nat \<Rightarrow> string"

record world =
  requests :: "oracle_request list"
  clock_reads :: nat

definition read_clock :: "services \<Rightarrow> world \<Rightarrow> string \<times> world" where
  "read_clock sv w = (now_iso sv (clock_reads w), w\<lparr>clock_reads := Suc (clock_reads w)\<rparr>)"

definition build_request :: "pyval \<Rightarrow> string \<Rightarrow> pyval \<Rightarrow> oracle_request" where
  "build_request cid descr score =
     \<lparr>req_cve_id = cid, req_description = descr,
      req_cvss = (if py_truthy score then score else PyStr ''Not specified'')\<rparr>"

definition log_request :: "world \<Rightarrow> oracle_request \<Rightarrow> world" where
  "log_request w req = w\<lparr>requests := requests w @ [req]\<rparr>"

text \<open>
  What \<open>json.loads(response.output_text.strip())\<close> yields for a request made in world
  \<open>w\<close>: the exception of the call or of the decoder, or the decoded answer.
\<close>

definition oracle_reply :: "services \<Rightarrow> world \<Rightarrow> oracle_request \<Rightarrow> py_error + pyval" where
  "oracle_reply sv w req =
     and_then (responses_create sv (requests w) req)
       (\<lambda>output_text. json_loads sv (py_strip output_text))"

definition fallback_insight :: string where
  "fallback_insight = ''Rule-based OT detection (LLM unavailable)''"

text \<open>
  The body of the \<open>try\<close> block: the result is the exception raised in it, or what it returns.
\<close>

definition llm_try ::
  "services \<Rightarrow> world \<Rightarrow> pyval \<Rightarrow> string \<Rightarrow> pyval \<Rightarrow> string list \<Rightarrow> (py_error + OTThreat option) \<times> world"
where
  "llm_try sv w cid descr score found =
     (let req = build_request cid descr score;
          w1 = log_request w req
      in case oracle_reply sv w req of
           Inl e \<Rightarrow> (Inl e, w1)
         | Inr llm_response \<Rightarrow>
             (case attr_get llm_response ''is_ot_related'' PyFalse of
                Inl e \<Rightarrow> (Inl e, w1)
              | Inr flag \<Rightarrow>
                  if py_truthy flag then
                    (case attr_get llm_response ''risk_explanation'' (PyStr ''No insight provided'') of
                       Inl e \<Rightarrow> (Inl e, w1)
                     | Inr insight \<Rightarrow>
                         (let (now, w2) = read_clock sv w1
                          in (Inr (Some \<lparr>cve_id = cid, cvss_score = score,
                                        description = PyStr (take 500 descr),
                                        ai_insight = insight,
                                        ot_keywords_found = PyList (map PyStr found),
                                        timestamp = PyStr now\<rparr>), w2)))
                  else (Inr None, w1)))"

text \<open>
  \<open>analyze_with_llm\<close>. The two subscripts and the keyword filter are before the \<open>try\<close>,
  so their exceptions leave the function; \<open>description.lower()\<close> exists on strings only.
  An exception of the \<open>try\<close> block is answered by the rule-based threat.
\<close>

definition analyze_with_llm ::
  "services \<Rightarrow> world \<Rightarrow> pydict \<Rightarrow> py_error + (OTThreat option \<times> world)"
where
  "analyze_with_llm sv w cve_data =
     and_then (subscript (PyDict cve_data) ''description'') (\<lambda>dv.
     and_then (subscript (PyDict cve_data) ''cve_id'') (\<lambda>cid.
       let score = py_get cve_data ''cvss_score'' (PyNum 0)
       in case dv of
            PyStr descr \<Rightarrow>
              (let found = found_keywords descr
               in if found = [] then Inr (None, w)
                  else (case llm_try sv w cid descr score found of
                          (Inr r, w1) \<Rightarrow> Inr (r, w1)
                        | (Inl e, w1) \<Rightarrow>
                            (let (now, w2) = read_clock sv w1
                             in Inr (Some \<lparr>cve_id = cid, cvss_score = score,
                                          description = PyStr (take 500 descr),
                                          ai_insight = PyStr fallback_insight,
                                          ot_keywords_found = PyList (map PyStr found),
                                          timestamp = PyStr now\<rparr>, w2))))
          | _ \<Rightarrow> Inl AttributeError))"

text \<open>
  \<open>batch_analyze\<close>: an instance of the dataclass is always true in \<open>if threat:\<close>, so every
  threat returned is kept. An exception of \<open>analyze_with_llm\<close> is not caught here.
\<close>

fun batch_loop ::
  "services \<Rightarrow> pydict list \<Rightarrow> OTThreat list \<Rightarrow> world \<Rightarrow> py_error + (OTThreat list \<times> world)"
where
  "batch_loop sv [] ot_threats w = Inr (ot_threats, w)"
| "batch_loop sv (cve # cves) ot_threats w =
     (case analyze_with_llm sv w cve of
        Inl e \<Rightarrow> Inl e
      | Inr (None, w1) \<Rightarrow> batch_loop sv cves ot_threats w1
      | Inr (Some threat, w1) \<Rightarrow> batch_loop sv cves (ot_threats @ [threat]) w1)"

definition batch_analyze ::
  "services \<Rightarrow> world \<Rightarrow> pydict list \<Rightarrow> py_error + (OTThreat list \<times> world)"
where
  "batch_analyze sv w cves = batch_loop sv cves [] w"

section \<open>The source client (cve\_fetcher.py)\<close>

text \<open>
  The HTTP exchange is outside the program: a call is given the outcome of
  \<open>requests.get\<close>, \<open>raise_for_status\<close> and \<open>response.json()\<close>, which is an exception
  or the decoded body. The state of the client is the set \<open>processed_cves\<close>.
\<close>

text \<open>\<open>metrics[version][0]['cvssData']['baseScore']\<close>\<close>

definition base_score :: "pyval \<Rightarrow> string \<Rightarrow> py_error + pyval" where
  "base_score metrics version =
     and_then (subscript metrics version) (\<lambda>entries.
     and_then (index0 entries) (\<lambda>entry.
     and_then (subscript entry ''cvssData'') (\<lambda>cvss_data.
       subscript cvss_data ''baseScore'')))"

definition extract_cvss :: "pyval \<Rightarrow> py_error + pyval" where
  "extract_cvss metrics =
     and_then (py_contains metrics ''cvssMetricV31'') (\<lambda>v31.
       if v31 then base_score metrics ''cvssMetricV31''
       else and_then (py_contains metrics ''cvssMetricV30'') (\<lambda>v30.
         if v30 then base_score metrics ''cvssMetricV30''
         else and_then (py_contains metrics ''cvssMetricV2'') (\<lambda>v2.
           if v2 then base_score metrics ''cvssMetricV2'' else Inr PyNone)))"

text \<open>
  One turn of the loop over the vulnerabilities: \<open>None\<close> when the record is skipped
  (\<open>continue\<close>), else the identifier and the candidate dictionary built for it.
\<close>

definition read_vulnerability :: "pyval set \<Rightarrow> pyval \<Rightarrow> py_error + (pyval \<times> pydict) option" where
  "read_vulnerability processed vulnerability =
     and_then (attr_get vulnerability ''cve'' (PyDict fmempty)) (\<lambda>cve_data.
     and_then (attr_get cve_data ''id'' (PyStr [])) (\<lambda>cid.
       if \<not> py_hashable cid then Inl TypeError
       else if cid \<in> processed then Inr None
       else
         and_then (attr_get cve_data ''descriptions'' (PyList [PyDict fmempty])) (\<lambda>descriptions.
         and_then (index0 descriptions) (\<lambda>first_description.
         and_then (attr_get first_description ''value'' (PyStr [])) (\<lambda>descr.
         and_then (attr_get cve_data ''metrics'' (PyDict fmempty)) (\<lambda>metrics.
         and_then (extract_cvss metrics) (\<lambda>score.
         and_then (attr_get cve_data ''published'' (PyStr [])) (\<lambda>published.
         and_then (attr_get cve_data ''lastModified'' (PyStr [])) (\<lambda>last_modified.
         and_then (attr_get cve_data ''references'' (PyList [])) (\<lambda>references.
           Inr (Some (cid, fmap_of_list
             [(''cve_id'', cid),
              (''description'', descr),
              (''cvss_score'', score),
              (''published_date'', published),
              (''last_modified'', last_modified),
              (''references'', references),
              (''raw_data'', cve_data)]))))))))))))"

text \<open>
  The loop. An exception stops it; the identifiers added to the set before stay in the set,
  the list \<open>cves\<close> built so far is lost with the frame.
\<close>

fun fetch_loop :: "pyval list \<Rightarrow> pydict list \<Rightarrow> pyval set \<Rightarrow> (py_error + pydict list) \<times> pyval set" where
  "fetch_loop [] cves processed = (Inr cves, processed)"
| "fetch_loop (vulnerability # rest) cves processed =
     (case read_vulnerability processed vulnerability of
        Inl e \<Rightarrow> (Inl e, processed)
      | Inr None \<Rightarrow> fetch_loop rest cves processed
      | Inr (Some (cid, cve_info)) \<Rightarrow> fetch_loop rest (cves @ [cve_info]) (insert cid processed))"

text \<open>The body of the \<open>try\<close> block of \<open>fetch_latest_cves\<close>.\<close>

definition fetch_try :: "py_error + pyval \<Rightarrow> pyval set \<Rightarrow> (py_error + pydict list) \<times> pyval set" where
  "fetch_try feed processed =
     (case feed of
        Inl e \<Rightarrow> (Inl e, processed)
      | Inr data \<Rightarrow>
          (case and_then (attr_get data ''vulnerabilities'' (PyList [])) py_iter of
             Inl e \<Rightarrow> (Inl e, processed)
           | Inr vulnerabilities \<Rightarrow> fetch_loop vulnerabilities [] processed))"

definition fetch_latest_cves :: "py_error + pyval \<Rightarrow> pyval set \<Rightarrow> pydict list \<times> pyval set" where
  "fetch_latest_cves feed processed =
     (case fetch_try feed processed of
        (Inr cves, processed') \<Rightarrow> (cves, processed')
      | (Inl e, processed') \<Rightarrow> ([], processed'))"

text \<open>
  The calls of one client, one after another, each with the outcome of its own HTTP
  exchange; the result is the list of the lists returned. A new client starts with the
  empty set.
\<close>

fun fetch_calls :: "(py_error + pyval) list \<Rightarrow> pyval set \<Rightarrow> pydict list list" where
  "fetch_calls [] processed = []"
| "fetch_calls (feed # feeds) processed =
     (case fetch_latest_cves feed processed of
        (cves, processed') \<Rightarrow> cves # fetch_calls feeds processed')"

section \<open>The threat store (agent.py)\<close>

text \<open>
  The file system maps a path to what \<open>json.load\<close> makes of the file: nothing when the
  file is missing, a decoding failure, or a document. \<open>json.dump\<close> followed by
  \<open>json.load\<close> is taken to give back the same document; the text in between is not
  modelled.
\<close>

datatype file_content = NotJson | Json pyval

type_synonym filesystem = "string \<rightharpoonup> file_content"

definition output_file :: string where
  "output_file = ''ot_threats.json''"

definition asdict :: "OTThreat \<Rightarrow> pyval" where
  "asdict threat = PyDict (fmap_of_list
     [(''cve_id'', cve_id threat),
      (''cvss_score'', cvss_score threat),
      (''description'', description threat),
      (''ai_insight'', ai_insight threat),
      (''ot_keywords_found'', ot_keywords_found threat),
      (''timestamp'', timestamp threat)])"

definition field_names :: "string list" where
  "field_names =
     [''cve_id'', ''cvss_score'', ''description'', ''ai_insight'', ''ot_keywords_found'', ''timestamp'']"

text \<open>
  \<open>OTThreat(**item)\<close>: \<open>item\<close> must be a mapping, and its keys must be the six fields,
  none missing and none more; else the call raises \<open>TypeError\<close>.
\<close>

definition OTThreat_of :: "pyval \<Rightarrow> py_error + OTThreat" where
  "OTThreat_of item =
     (case item of
        PyDict d \<Rightarrow>
          if fmdom d = fset_of_list field_names then
            Inr \<lparr>cve_id = py_get d ''cve_id'' PyNone,
                 cvss_score = py_get d ''cvss_score'' PyNone,
                 description = py_get d ''description'' PyNone,
                 ai_insight = py_get d ''ai_insight'' PyNone,
                 ot_keywords_found = py_get d ''ot_keywords_found'' PyNone,
                 timestamp = py_get d ''timestamp'' PyNone\<rparr>
          else Inl TypeError
      | _ \<Rightarrow> Inl TypeError)"

text \<open>\<open>[OTThreat(**item) for item in data]\<close>\<close>

fun OTThreats_of :: "pyval list \<Rightarrow> py_error + OTThreat list" where
  "OTThreats_of [] = Inr []"
| "OTThreats_of (item # items) =
     and_then (OTThreat_of item) (\<lambda>threat.
     and_then (OTThreats_of items) (\<lambda>threats. Inr (threat # threats)))"

text \<open>
  \<open>load_existing_threats\<close>: only \<open>FileNotFoundError\<close> is caught, and then the list stays
  as it is.
\<close>

definition load_existing_threats :: "filesystem \<Rightarrow> OTThreat list \<Rightarrow> py_error + OTThreat list" where
  "load_existing_threats fs ot_threats =
     (case fs output_file of
        None \<Rightarrow> Inr ot_threats
      | Some NotJson \<Rightarrow> Inl JSONDecodeError
      | Some (Json data) \<Rightarrow> and_then (py_iter data) OTThreats_of)"

text \<open>The store of a new agent: \<open>self.ot_threats = []\<close>, then \<open>load_existing_threats\<close>.\<close>

definition new_agent_threats :: "filesystem \<Rightarrow> py_error + OTThreat list" where
  "new_agent_threats fs = load_existing_threats fs []"

definition save_threats :: "filesystem \<Rightarrow> OTThreat list \<Rightarrow> filesystem" where
  "save_threats fs ot_threats = fs(output_file \<mapsto> Json (PyList (map asdict ot_threats)))"

text \<open>
  Step 3 of \<open>run_cycle\<close>: each threat of the batch is appended unless a threat of the
  store has the same \<open>cve_id\<close>.
\<close>

fun add_threats :: "OTThreat list \<Rightarrow> OTThreat list \<Rightarrow> OTThreat list" where
  "add_threats store [] = store"
| "add_threats store (threat # rest) =
     add_threats
       (if list_ex (\<lambda>t. cve_id t = cve_id threat) store then store else store @ [threat])
       rest"

section \<open>Scenarios\<close>

text \<open>Concrete worlds, oracles, candidates, feed answers and threats, used in the instances below.\<close>

definition w0 :: world where
  "w0 = \<lparr>requests = [], clock_reads = 0\<rparr>"

definition quoted :: "string \<Rightarrow> string" where
  "quoted s = [CHR 0x22] @ s @ [CHR 0x22]"

definition flag_false_text :: string where
  "flag_false_text = ''{'' @ quoted ''is_ot_related'' @ '': false}''"

definition flag_true_text :: string where
  "flag_true_text = ''{'' @ quoted ''is_ot_related'' @ '': true, '' @ quoted ''risk_explanation'' @ '': '' @ quoted ''Stops the line'' @ ''}''"

text \<open>A decoder that knows four documents and rejects every other text.\<close>

definition json_loads_table :: "string \<Rightarrow> py_error + pyval" where
  "json_loads_table s =
     (if s = ''[]'' then Inr (PyList [])
      else if s = ''{}'' then Inr (PyDict fmempty)
      else if s = flag_false_text then Inr (PyDict (fmap_of_list [(''is_ot_related'', PyFalse)]))
      else if s = flag_true_text then
        Inr (PyDict (fmap_of_list [(''is_ot_related'', PyTrue), (''risk_explanation'', PyStr ''Stops the line'')]))
      else Inl JSONDecodeError)"

definition clock0 :: "nat \<Rightarrow> string" where
  "clock0 n = ''2024-05-01T12:00:00''"

text \<open>An oracle that cannot be reached, and one that answers every request with the same text.\<close>

definition oracle_down :: services where
  "oracle_down = \<lparr>responses_create = (\<lambda>log req. Inl APIError), json_loads = json_loads_table, now_iso = clock0\<rparr>"

definition oracle_says :: "string \<Rightarrow> services" where
  "oracle_says text = \<lparr>responses_create = (\<lambda>log req. Inr text), json_loads = json_loads_table, now_iso = clock0\<rparr>"

definition plc_candidate :: pydict where
  "plc_candidate = fmap_of_list
     [(''cve_id'', PyStr ''CVE-2024-0001''), (''description'', PyStr ''Flaw in PLC''), (''cvss_score'', PyNum (75 / 10))]"

definition shop_candidate :: pydict where
  "shop_candidate = fmap_of_list
     [(''cve_id'', PyStr ''CVE-2024-0002''), (''description'', PyStr ''Flaw in a web shop''), (''cvss_score'', PyNum 5)]"

definition siemens_description :: string where
  "siemens_description =
     ''A buffer overflow in the Siemens S7 PLC firmware allows remote code execution''"

definition siemens_candidate :: pydict where
  "siemens_candidate = fmap_of_list
     [(''cve_id'', PyStr ''CVE-2024-0003''), (''description'', PyStr siemens_description),
      (''cvss_score'', PyNum (98 / 10))]"

definition unscored_cve :: pyval where
  "unscored_cve = PyDict (fmap_of_list
     [(''id'', PyStr ''CVE-2024-0001''),
      (''descriptions'', PyList [PyDict (fmap_of_list [(''lang'', PyStr ''en''), (''value'', PyStr ''Flaw in PLC'')])])])"

definition unscored_entry :: pyval where
  "unscored_entry = PyDict (fmap_of_list [(''cve'', unscored_cve)])"

definition unscored_feed :: pyval where
  "unscored_feed = PyDict (fmap_of_list [(''vulnerabilities'', PyList [unscored_entry])])"

definition unscored_candidate :: pydict where
  "unscored_candidate = fmap_of_list
     [(''cve_id'', PyStr ''CVE-2024-0001''),
      (''description'', PyStr ''Flaw in PLC''),
      (''cvss_score'', PyNone),
      (''published_date'', PyStr []),
      (''last_modified'', PyStr []),
      (''references'', PyList []),
      (''raw_data'', unscored_cve)]"

definition broken_cve :: pyval where
  "broken_cve = PyDict (fmap_of_list
     [(''id'', PyStr ''CVE-2024-0002''), (''descriptions'', PyList [])])"

definition broken_entry :: pyval where
  "broken_entry = PyDict (fmap_of_list [(''cve'', broken_cve)])"

definition broken_feed :: pyval where
  "broken_feed = PyDict (fmap_of_list [(''vulnerabilities'', PyList [unscored_entry, broken_entry])])"

definition threat_a :: OTThreat where
  "threat_a = \<lparr>cve_id = PyStr ''CVE-2024-0001'', cvss_score = PyNum (75 / 10),
               description = PyStr ''Flaw in PLC'', ai_insight = PyStr ''Stops the line'',
               ot_keywords_found = PyList [PyStr ''PLC''], timestamp = PyStr ''2024-05-01T12:00:00''\<rparr>"

definition threat_a_later :: OTThreat where
  "threat_a_later = \<lparr>cve_id = PyStr ''CVE-2024-0001'', cvss_score = PyNum (91 / 10),
               description = PyStr ''Flaw in PLC, revised'', ai_insight = PyStr ''Rule-based OT detection (LLM unavailable)'',
               ot_keywords_found = PyList [PyStr ''PLC''], timestamp = PyStr ''2024-05-01T12:10:00''\<rparr>"

definition threat_b :: OTThreat where
  "threat_b = \<lparr>cve_id = PyStr ''CVE-2024-0004'', cvss_score = PyNone,
               description = PyStr ''SCADA login bypass'', ai_insight = PyStr ''Operators lose control'',
               ot_keywords_found = PyList [PyStr ''SCADA''], timestamp = PyStr ''2024-05-01T12:00:01''\<rparr>"

section \<open>Substring test and keyword filter\<close>

lemma starts_with_iff: "starts_with xs ys \<longleftrightarrow> (\<exists>s. ys = xs @ s)"
  by (induction xs ys rule: starts_with.induct) auto

lemma py_in_str_iff: "py_in_str xs ys \<longleftrightarrow> (\<exists>p s. ys = p @ xs @ s)"
proof (induction ys)
  case Nil
  show ?case by auto
next
  case (Cons y ys)
  show ?case
  proof
    assume "py_in_str xs (y # ys)"
    then consider "starts_with xs (y # ys)" | "py_in_str xs ys" by auto
    then show "\<exists>p s. y # ys = p @ xs @ s"
    proof cases
      case 1
      then obtain s where "y # ys = xs @ s" by (auto simp: starts_with_iff)
      then have "y # ys = [] @ xs @ s" by simp
      then show ?thesis by blast
    next
      case 2
      with Cons.IH obtain p s where "ys = p @ xs @ s" by auto
      then have "y # ys = (y # p) @ xs @ s" by simp
      then show ?thesis by blast
    qed
  next
    assume "\<exists>p s. y # ys = p @ xs @ s"
    then obtain p s where eq: "y # ys = p @ xs @ s" by auto
    show "py_in_str xs (y # ys)"
    proof (cases p)
      case Nil
      with eq have "starts_with xs (y # ys)" by (auto simp: starts_with_iff)
      then show ?thesis by simp
    next
      case (Cons a p')
      with eq have "ys = p' @ xs @ s" by simp
      with Cons.IH have "py_in_str xs ys" by blast
      then show ?thesis by simp
    qed
  qed
qed

text \<open>
  Lower-casing against the alphabet: \<open>lower_char\<close> sends every capital letter to the
  small letter at the same place and leaves every other character alone, so two
  characters have the same lower-case form exactly when they are the same up to case.
\<close>

lemma upper_codes: "map char_of [65..<91::nat] = upper_letters"
  by code_simp

lemma upper_in_range: "list_all (\<lambda>c. CHR ''A'' \<le> c \<and> c \<le> CHR ''Z'') upper_letters"
  by code_simp

lemma is_upper_iff: "CHR ''A'' \<le> c \<and> c \<le> CHR ''Z'' \<longleftrightarrow> c \<in> set upper_letters"
proof
  assume a: "CHR ''A'' \<le> c \<and> c \<le> CHR ''Z''"
  have "(of_char c :: nat) \<in> {65..<91}"
    using a by (simp add: less_eq_char_def)
  then have "(of_char c :: nat) \<in> set [65..<91]"
    by (simp only: set_upt)
  then have "char_of (of_char c :: nat) \<in> set (map char_of [65..<91::nat])"
    by (simp only: set_map) (rule imageI)
  then show "c \<in> set upper_letters"
    by (simp only: upper_codes char_of_char)
next
  assume "c \<in> set upper_letters"
  with upper_in_range show "CHR ''A'' \<le> c \<and> c \<le> CHR ''Z''"
    by (auto simp: list_all_iff)
qed

lemma lower_char_other:
  assumes "c \<notin> set upper_letters"
  shows "lower_char c = c"
proof -
  from assms have "\<not> (CHR ''A'' \<le> c \<and> c \<le> CHR ''Z'')"
    by (simp only: is_upper_iff not_False_eq_True)
  then show ?thesis
    by (simp only: lower_char_def if_False)
qed

lemma pairs_checked:
  "list_all (\<lambda>(u, l). lower_char u = l \<and> u \<in> set upper_letters \<and> l \<notin> set upper_letters)
     (zip upper_letters lower_letters)"
  by code_simp

lemma upper_paired:
  "list_all (\<lambda>u. (u, lower_char u) \<in> set (zip upper_letters lower_letters)) upper_letters"
  by code_simp

lemma lower_distinct_on_upper: "distinct (map lower_char upper_letters)"
  by code_simp

lemma pair_facts:
  assumes "(u, l) \<in> set (zip upper_letters lower_letters)"
  shows "lower_char u = l" and "u \<in> set upper_letters" and "l \<notin> set upper_letters"
  using assms pairs_checked by (auto simp: list_all_iff)

lemma lower_char_eq_iff: "lower_char c = lower_char d \<longleftrightarrow> same_letter c d"
proof
  assume eq: "lower_char c = lower_char d"
  have inj: "inj_on lower_char (set upper_letters)"
    using lower_distinct_on_upper by (simp add: distinct_map)
  show "same_letter c d"
  proof (cases "c \<in> set upper_letters")
    case cu: True
    show ?thesis
    proof (cases "d \<in> set upper_letters")
      case True
      with cu eq inj have "c = d" by (auto dest: inj_onD)
      then show ?thesis by (simp add: same_letter_def)
    next
      case False
      then have "lower_char d = d" by (rule lower_char_other)
      moreover from cu upper_paired
      have "(c, lower_char c) \<in> set (zip upper_letters lower_letters)"
        by (simp add: list_all_iff)
      ultimately show ?thesis using eq by (simp add: same_letter_def)
    qed
  next
    case cn: False
    then have c: "lower_char c = c" by (rule lower_char_other)
    show ?thesis
    proof (cases "d \<in> set upper_letters")
      case True
      with upper_paired
      have "(d, lower_char d) \<in> set (zip upper_letters lower_letters)"
        by (simp add: list_all_iff)
      with eq c show ?thesis by (simp add: same_letter_def)
    next
      case False
      then have "lower_char d = d" by (rule lower_char_other)
      with eq c show ?thesis by (simp add: same_letter_def)
    qed
  qed
next
  assume "same_letter c d"
  then consider "c = d" | "(c, d) \<in> set (zip upper_letters lower_letters)"
    | "(d, c) \<in> set (zip upper_letters lower_letters)"
    by (auto simp: same_letter_def)
  then show "lower_char c = lower_char d"
  proof cases
    case 1
    then show ?thesis by simp
  next
    case 2
    from pair_facts [OF 2] show ?thesis by (simp add: lower_char_other)
  next
    case 3
    from pair_facts [OF 3] show ?thesis by (simp add: lower_char_other)
  qed
qed

lemma str_lower_eq_iff: "str_lower xs = str_lower ys \<longleftrightarrow> list_all2 same_letter xs ys"
proof (induction xs arbitrary: ys)
  case Nil
  show ?case by (simp add: str_lower_def)
next
  case (Cons x xs)
  show ?case
  proof (cases ys)
    case Nil
    then show ?thesis by (simp add: str_lower_def)
  next
    case (Cons y ys')
    with Cons.IH [of ys'] show ?thesis
      by (simp add: str_lower_def lower_char_eq_iff)
  qed
qed

lemma lowered_occurrence:
  "(\<exists>p s. str_lower text = p @ str_lower k @ s)
     \<longleftrightarrow> (\<exists>before mid after. text = before @ mid @ after \<and> list_all2 same_letter mid k)"
proof
  assume "\<exists>p s. str_lower text = p @ str_lower k @ s"
  then obtain p s where "map lower_char text = p @ (map lower_char k @ s)"
    by (auto simp: str_lower_def)
  then obtain before rest where t: "text = before @ rest"
    and r: "map lower_char k @ s = map lower_char rest"
    unfolding map_eq_append_conv by blast
  from r obtain mid after where "rest = mid @ after" and "map lower_char k = map lower_char mid"
    unfolding append_eq_map_conv by blast
  with t have "text = before @ mid @ after \<and> str_lower mid = str_lower k"
    by (simp add: str_lower_def)
  then have "text = before @ mid @ after \<and> list_all2 same_letter mid k"
    by (simp only: str_lower_eq_iff)
  then show "\<exists>before mid after. text = before @ mid @ after \<and> list_all2 same_letter mid k"
    by blast
next
  assume "\<exists>before mid after. text = before @ mid @ after \<and> list_all2 same_letter mid k"
  then obtain before mid after where t: "text = before @ mid @ after"
    and m: "str_lower mid = str_lower k"
    by (auto simp: str_lower_eq_iff)
  have "str_lower text = str_lower before @ str_lower k @ str_lower after"
    using t m by (simp add: str_lower_def)
  then show "\<exists>p s. str_lower text = p @ str_lower k @ s" by blast
qed

text \<open>
  C4. For every text, the matched terms are exactly the terms of the fixed list that occur
  in the text up to case: some contiguous run of characters of the text, anywhere in it
  and in the middle of a word as well (no tokenisation), agrees with the term character
  by character up to the case of letters. They come in the order of the fixed list, not
  in the order of the text: the result is the fixed list with the other terms removed.
\<close>

theorem found_keywords_exact:
  "found_keywords text =
     filter (\<lambda>k. \<exists>before mid after. text = before @ mid @ after \<and> list_all2 same_letter mid k)
       ot_keywords"
  by (simp add: found_keywords_def py_in_str_iff lowered_occurrence)

lemma found_keywords_mixed:
  "found_keywords ''remote Scada and plc'' = [''SCADA'', ''PLC'', ''OT'']"
  by code_simp

text \<open>
  An instance: in \<open>remote Scada and plc\<close> no term occurs in its own spelling;
  \<open>SCADA\<close> and \<open>PLC\<close> occur up to case, \<open>OT\<close> occurs up to case inside
  \<open>remote\<close>, and the result follows the fixed list, not the text.
\<close>

theorem found_keywords_exact_witness:
  "filter (\<lambda>k. \<exists>before mid after.
             ''remote Scada and plc'' = before @ mid @ after \<and> list_all2 same_letter mid k)
     ot_keywords = [''SCADA'', ''PLC'', ''OT'']"
  using found_keywords_exact [of "''remote Scada and plc''"] found_keywords_mixed by simp

section \<open>Evaluation of the scenarios\<close>

lemma found_keywords_plc: "found_keywords ''Flaw in PLC'' = [''PLC'']"
  by code_simp

lemma found_keywords_shop: "found_keywords ''Flaw in a web shop'' = []"
  by code_simp

lemma strip_texts:
  "py_strip ''[]'' = ''[]''" "py_strip ''{}'' = ''{}''" 
  "py_strip flag_false_text = flag_false_text" "py_strip flag_true_text = flag_true_text"
  "py_strip ''Service unavailable'' = ''Service unavailable''"
  by code_simp+

lemma loads_texts:
  "json_loads_table ''[]'' = Inr (PyList [])"
  "json_loads_table ''{}'' = Inr (PyDict fmempty)"
  "json_loads_table flag_false_text = Inr (PyDict (fmap_of_list [(''is_ot_related'', PyFalse)]))"
  "json_loads_table flag_true_text = Inr (PyDict (fmap_of_list [(''is_ot_related'', PyTrue), (''risk_explanation'', PyStr ''Stops the line'')]))"
  "json_loads_table ''Service unavailable'' = Inl JSONDecodeError"
  by code_simp+

lemma oracle_reply_says: "oracle_reply (oracle_says text) w req = json_loads_table (py_strip text)"
  by (simp add: oracle_reply_def oracle_says_def and_then_def)

lemma oracle_reply_down: "oracle_reply oracle_down w req = Inl APIError"
  by (simp add: oracle_reply_def oracle_down_def and_then_def)

lemma found_keywords_siemens:
  "found_keywords siemens_description = [''PLC'', ''Siemens'', ''OT'']"
  by code_simp

lemma is_ot_related_iff: "is_ot_related descr \<longleftrightarrow> found_keywords descr \<noteq> []"
  by (auto simp: is_ot_related_def found_keywords_def list_ex_iff filter_empty_conv)

section \<open>Properties of the classifier\<close>

lemma analyze_unfold:
  assumes "fmlookup cve_data ''description'' = Some (PyStr descr)"
      and "fmlookup cve_data ''cve_id'' = Some cid"
  shows "analyze_with_llm sv w cve_data =
     (if found_keywords descr = [] then Inr (None, w)
      else (case llm_try sv w cid descr (py_get cve_data ''cvss_score'' (PyNum 0)) (found_keywords descr) of
              (Inr r, w1) \<Rightarrow> Inr (r, w1)
            | (Inl e, w1) \<Rightarrow>
                Inr (Some \<lparr>cve_id = cid, cvss_score = py_get cve_data ''cvss_score'' (PyNum 0),
                           description = PyStr (take 500 descr),
                           ai_insight = PyStr fallback_insight,
                           ot_keywords_found = PyList (map PyStr (found_keywords descr)),
                           timestamp = PyStr (now_iso sv (clock_reads w1))\<rparr>,
                     w1\<lparr>clock_reads := Suc (clock_reads w1)\<rparr>)))"
  using assms
  by (simp add: analyze_with_llm_def and_then_def read_clock_def Let_def split: prod.splits sum.splits)

lemma llm_try_raises:
  assumes "oracle_reply sv w (build_request cid descr score) = Inl e"
  shows "llm_try sv w cid descr score found = (Inl e, log_request w (build_request cid descr score))"
  using assms by (simp add: llm_try_def Let_def)

lemma llm_try_not_object:
  assumes "oracle_reply sv w (build_request cid descr score) = Inr v"
      and "\<forall>d. v \<noteq> PyDict d"
  shows "llm_try sv w cid descr score found =
           (Inl AttributeError, log_request w (build_request cid descr score))"
  using assms by (cases v) (simp_all add: llm_try_def Let_def attr_get_def)

lemma llm_try_object:
  assumes "oracle_reply sv w (build_request cid descr score) = Inr (PyDict d)"
  shows "llm_try sv w cid descr score found =
           (let w1 = log_request w (build_request cid descr score)
            in if py_truthy (py_get d ''is_ot_related'' PyFalse)
               then (Inr (Some \<lparr>cve_id = cid, cvss_score = score,
                                description = PyStr (take 500 descr),
                                ai_insight = py_get d ''risk_explanation'' (PyStr ''No insight provided''),
                                ot_keywords_found = PyList (map PyStr found),
                                timestamp = PyStr (now_iso sv (clock_reads w1))\<rparr>),
                     w1\<lparr>clock_reads := Suc (clock_reads w1)\<rparr>)
               else (Inr None, w1))"
  using assms by (simp add: llm_try_def Let_def attr_get_def read_clock_def)

lemma log_request_clock: "clock_reads (log_request w req) = clock_reads w"
  by (simp add: log_request_def)

text \<open>
  C5. A candidate whose description matches no term of the fixed list is answered with
  nothing, and the world comes back as it was: no request has been added to the log, so
  the oracle has not been called, whatever it would have said. A batch of that one
  candidate yields no threat.
\<close>

theorem no_match_no_oracle_call:
  assumes "fmlookup cve_data ''description'' = Some (PyStr descr)"
      and "fmlookup cve_data ''cve_id'' = Some cid"
      and "found_keywords descr = []"
  shows "analyze_with_llm sv w cve_data = Inr (None, w)
         \<and> batch_analyze sv w [cve_data] = Inr ([], w)"
proof -
  have "analyze_with_llm sv w cve_data = Inr (None, w)"
    using assms by (simp add: analyze_unfold)
  then show ?thesis by (simp add: batch_analyze_def)
qed

theorem no_match_no_oracle_call_witness:
  "fmlookup shop_candidate ''description'' = Some (PyStr ''Flaw in a web shop'')
   \<and> fmlookup shop_candidate ''cve_id'' = Some (PyStr ''CVE-2024-0002'')
   \<and> found_keywords ''Flaw in a web shop'' = []
   \<and> analyze_with_llm (oracle_says flag_true_text) w0 shop_candidate = Inr (None, w0)
   \<and> batch_analyze (oracle_says flag_true_text) w0 [shop_candidate] = Inr ([], w0)"
proof -
  have d: "fmlookup shop_candidate ''description'' = Some (PyStr ''Flaw in a web shop'')"
    by (simp add: shop_candidate_def)
  have c: "fmlookup shop_candidate ''cve_id'' = Some (PyStr ''CVE-2024-0002'')"
    by (simp add: shop_candidate_def)
  show ?thesis
    using no_match_no_oracle_call [OF d c found_keywords_shop, of "oracle_says flag_true_text" w0] d c
    by (simp add: found_keywords_shop)
qed

text \<open>
  C1. A candidate whose description matches at least one term, for which the call of the
  oracle or the decoding of its answer raises: the classifier returns one threat, whose
  insight is the fixed text, the same for every candidate, and whose keywords are the
  output of the filter for the description. A batch of that one candidate yields exactly
  that one threat.
\<close>

theorem fail_open_on_oracle_error:
  assumes "fmlookup cve_data ''description'' = Some (PyStr descr)"
      and "fmlookup cve_data ''cve_id'' = Some cid"
      and "found_keywords descr \<noteq> []"
      and "oracle_reply sv w (build_request cid descr (py_get cve_data ''cvss_score'' (PyNum 0))) = Inl e"
  shows "analyze_with_llm sv w cve_data =
            Inr (Some \<lparr>cve_id = cid,
                       cvss_score = py_get cve_data ''cvss_score'' (PyNum 0),
                       description = PyStr (take 500 descr),
                       ai_insight = PyStr ''Rule-based OT detection (LLM unavailable)'',
                       ot_keywords_found = PyList (map PyStr (found_keywords descr)),
                       timestamp = PyStr (now_iso sv (clock_reads w))\<rparr>,
                 (log_request w (build_request cid descr (py_get cve_data ''cvss_score'' (PyNum 0))))
                   \<lparr>clock_reads := Suc (clock_reads w)\<rparr>)
          \<and> batch_analyze sv w [cve_data] =
            Inr ([\<lparr>cve_id = cid,
                    cvss_score = py_get cve_data ''cvss_score'' (PyNum 0),
                    description = PyStr (take 500 descr),
                    ai_insight = PyStr ''Rule-based OT detection (LLM unavailable)'',
                    ot_keywords_found = PyList (map PyStr (found_keywords descr)),
                    timestamp = PyStr (now_iso sv (clock_reads w))\<rparr>],
                 (log_request w (build_request cid descr (py_get cve_data ''cvss_score'' (PyNum 0))))
                   \<lparr>clock_reads := Suc (clock_reads w)\<rparr>)"
proof -
  have "analyze_with_llm sv w cve_data =
            Inr (Some \<lparr>cve_id = cid,
                       cvss_score = py_get cve_data ''cvss_score'' (PyNum 0),
                       description = PyStr (take 500 descr),
                       ai_insight = PyStr ''Rule-based OT detection (LLM unavailable)'',
                       ot_keywords_found = PyList (map PyStr (found_keywords descr)),
                       timestamp = PyStr (now_iso sv (clock_reads w))\<rparr>,
                 (log_request w (build_request cid descr (py_get cve_data ''cvss_score'' (PyNum 0))))
                   \<lparr>clock_reads := Suc (clock_reads w)\<rparr>)"
    using assms
    by (simp add: analyze_unfold llm_try_raises log_request_clock fallback_insight_def)
  then show ?thesis by (simp add: batch_analyze_def)
qed

theorem fail_open_on_oracle_error_witness:
  "fmlookup plc_candidate ''description'' = Some (PyStr ''Flaw in PLC'')
   \<and> fmlookup plc_candidate ''cve_id'' = Some (PyStr ''CVE-2024-0001'')
   \<and> found_keywords ''Flaw in PLC'' \<noteq> []
   \<and> oracle_reply (oracle_says ''Service unavailable'') w0
        (build_request (PyStr ''CVE-2024-0001'') ''Flaw in PLC'' (PyNum (75 / 10))) = Inl JSONDecodeError
   \<and> analyze_with_llm (oracle_says ''Service unavailable'') w0 plc_candidate =
        Inr (Some \<lparr>cve_id = PyStr ''CVE-2024-0001'',
                   cvss_score = PyNum (75 / 10),
                   description = PyStr ''Flaw in PLC'',
                   ai_insight = PyStr ''Rule-based OT detection (LLM unavailable)'',
                   ot_keywords_found = PyList [PyStr ''PLC''],
                   timestamp = PyStr ''2024-05-01T12:00:00''\<rparr>,
             \<lparr>requests = [\<lparr>req_cve_id = PyStr ''CVE-2024-0001'', req_description = ''Flaw in PLC'',
                           req_cvss = PyNum (75 / 10)\<rparr>], clock_reads = 1\<rparr>)"
proof -
  have d: "fmlookup plc_candidate ''description'' = Some (PyStr ''Flaw in PLC'')"
    by (simp add: plc_candidate_def)
  have c: "fmlookup plc_candidate ''cve_id'' = Some (PyStr ''CVE-2024-0001'')"
    by (simp add: plc_candidate_def)
  have s: "py_get plc_candidate ''cvss_score'' (PyNum 0) = PyNum (75 / 10)"
    by (simp add: plc_candidate_def py_get_def)
  have k: "found_keywords ''Flaw in PLC'' \<noteq> []"
    by (simp add: found_keywords_plc)
  have r: "oracle_reply (oracle_says ''Service unavailable'') w0
        (build_request (PyStr ''CVE-2024-0001'') ''Flaw in PLC'' (py_get plc_candidate ''cvss_score'' (PyNum 0))) = Inl JSONDecodeError"
    by (simp add: oracle_reply_says strip_texts loads_texts)
  have n: "now_iso (oracle_says ''Service unavailable'') 0 = ''2024-05-01T12:00:00''"
    by (simp add: oracle_says_def clock0_def)
  show ?thesis
    using fail_open_on_oracle_error [OF d c k r] d c k r
    by (simp add: s n found_keywords_plc log_request_def build_request_def w0_def)
qed

text \<open>
  C8. A candidate whose description matches at least one term, for which the answer of the
  oracle decodes to an object whose relevance flag is false: the classifier returns
  nothing, after the one call of the oracle. A batch of that one candidate yields no threat.
\<close>

theorem oracle_false_overrides_filter:
  assumes "fmlookup cve_data ''description'' = Some (PyStr descr)"
      and "fmlookup cve_data ''cve_id'' = Some cid"
      and "found_keywords descr \<noteq> []"
      and "oracle_reply sv w (build_request cid descr (py_get cve_data ''cvss_score'' (PyNum 0))) = Inr (PyDict answer)"
      and "fmlookup answer ''is_ot_related'' = Some PyFalse"
  shows "analyze_with_llm sv w cve_data =
           Inr (None, log_request w (build_request cid descr (py_get cve_data ''cvss_score'' (PyNum 0))))
         \<and> batch_analyze sv w [cve_data] =
           Inr ([], log_request w (build_request cid descr (py_get cve_data ''cvss_score'' (PyNum 0))))"
proof -
  have "\<not> py_truthy (py_get answer ''is_ot_related'' PyFalse)"
    using assms(5) by (simp add: py_get_def)
  then have "analyze_with_llm sv w cve_data =
           Inr (None, log_request w (build_request cid descr (py_get cve_data ''cvss_score'' (PyNum 0))))"
    using assms(1-4) by (simp add: analyze_unfold llm_try_object)
  then show ?thesis by (simp add: batch_analyze_def)
qed

theorem oracle_false_overrides_filter_witness:
  "fmlookup plc_candidate ''description'' = Some (PyStr ''Flaw in PLC'')
   \<and> fmlookup plc_candidate ''cve_id'' = Some (PyStr ''CVE-2024-0001'')
   \<and> found_keywords ''Flaw in PLC'' \<noteq> []
   \<and> oracle_reply (oracle_says flag_false_text) w0
        (build_request (PyStr ''CVE-2024-0001'') ''Flaw in PLC'' (PyNum (75 / 10)))
       = Inr (PyDict (fmap_of_list [(''is_ot_related'', PyFalse)]))
   \<and> fmlookup (fmap_of_list [(''is_ot_related'', PyFalse)]) ''is_ot_related'' = Some PyFalse
   \<and> analyze_with_llm (oracle_says flag_false_text) w0 plc_candidate =
       Inr (None, \<lparr>requests = [\<lparr>req_cve_id = PyStr ''CVE-2024-0001'', req_description = ''Flaw in PLC'',
                                 req_cvss = PyNum (75 / 10)\<rparr>], clock_reads = 0\<rparr>)"
proof -
  have d: "fmlookup plc_candidate ''description'' = Some (PyStr ''Flaw in PLC'')"
    by (simp add: plc_candidate_def)
  have c: "fmlookup plc_candidate ''cve_id'' = Some (PyStr ''CVE-2024-0001'')"
    by (simp add: plc_candidate_def)
  have s: "py_get plc_candidate ''cvss_score'' (PyNum 0) = PyNum (75 / 10)"
    by (simp add: plc_candidate_def py_get_def)
  have k: "found_keywords ''Flaw in PLC'' \<noteq> []"
    by (simp add: found_keywords_plc)
  have r: "oracle_reply (oracle_says flag_false_text) w0
        (build_request (PyStr ''CVE-2024-0001'') ''Flaw in PLC'' (py_get plc_candidate ''cvss_score'' (PyNum 0)))
       = Inr (PyDict (fmap_of_list [(''is_ot_related'', PyFalse)]))"
    by (simp add: oracle_reply_says strip_texts loads_texts)
  have f: "fmlookup (fmap_of_list [(''is_ot_related'', PyFalse)]) ''is_ot_related'' = Some PyFalse"
    by simp
  show ?thesis
    using oracle_false_overrides_filter [OF d c k r f] d c k r f
    by (simp add: s log_request_def build_request_def w0_def)
qed
lemma take_siemens: "take 500 siemens_description = siemens_description"
  by (simp add: siemens_description_def)

text \<open>
  C9, as stated: for the description of the scenario the matched terms are not
  \<open>Siemens, PLC\<close>.
\<close>

theorem siemens_terms_not_as_stated:
  "found_keywords siemens_description \<noteq> [''Siemens'', ''PLC'']"
  by (simp add: found_keywords_siemens)

text \<open>
  C9, amended. For the description \<open>A buffer overflow in the Siemens S7 PLC firmware
  allows remote code execution\<close> with score 9.8, the matched terms are \<open>PLC\<close>,
  \<open>Siemens\<close>, \<open>OT\<close>, in the order of the fixed list (\<open>ot\<close> occurs in \<open>remote\<close>);
  when the oracle answers with an object whose relevance flag is true, the threat has the
  score 9.8, the whole description unchanged, and these three terms.
\<close>

theorem siemens_scenario:
  assumes "fmlookup cve_data ''description'' = Some (PyStr siemens_description)"
      and "fmlookup cve_data ''cve_id'' = Some cid"
      and "fmlookup cve_data ''cvss_score'' = Some (PyNum (98 / 10))"
      and "oracle_reply sv w (build_request cid siemens_description (PyNum (98 / 10))) = Inr (PyDict answer)"
      and "fmlookup answer ''is_ot_related'' = Some PyTrue"
  shows "found_keywords siemens_description = [''PLC'', ''Siemens'', ''OT'']
         \<and> analyze_with_llm sv w cve_data =
             Inr (Some \<lparr>cve_id = cid,
                        cvss_score = PyNum (98 / 10),
                        description = PyStr siemens_description,
                        ai_insight = py_get answer ''risk_explanation'' (PyStr ''No insight provided''),
                        ot_keywords_found = PyList [PyStr ''PLC'', PyStr ''Siemens'', PyStr ''OT''],
                        timestamp = PyStr (now_iso sv (clock_reads w))\<rparr>,
                  (log_request w (build_request cid siemens_description (PyNum (98 / 10))))
                    \<lparr>clock_reads := Suc (clock_reads w)\<rparr>)"
proof -
  have s: "py_get cve_data ''cvss_score'' (PyNum 0) = PyNum (98 / 10)"
    using assms(3) by (simp add: py_get_def)
  have t: "py_truthy (py_get answer ''is_ot_related'' PyFalse)"
    using assms(5) by (simp add: py_get_def)
  show ?thesis
    using assms(1,2,4) t
    by (simp add: analyze_unfold s llm_try_object found_keywords_siemens take_siemens
          log_request_clock Let_def)
qed

theorem siemens_scenario_witness:
  "fmlookup siemens_candidate ''description'' = Some (PyStr siemens_description)
   \<and> fmlookup siemens_candidate ''cve_id'' = Some (PyStr ''CVE-2024-0003'')
   \<and> fmlookup siemens_candidate ''cvss_score'' = Some (PyNum (98 / 10))
   \<and> oracle_reply (oracle_says flag_true_text) w0
        (build_request (PyStr ''CVE-2024-0003'') siemens_description (PyNum (98 / 10)))
       = Inr (PyDict (fmap_of_list [(''is_ot_related'', PyTrue), (''risk_explanation'', PyStr ''Stops the line'')]))
   \<and> analyze_with_llm (oracle_says flag_true_text) w0 siemens_candidate =
       Inr (Some \<lparr>cve_id = PyStr ''CVE-2024-0003'',
                  cvss_score = PyNum (98 / 10),
                  description = PyStr siemens_description,
                  ai_insight = PyStr ''Stops the line'',
                  ot_keywords_found = PyList [PyStr ''PLC'', PyStr ''Siemens'', PyStr ''OT''],
                  timestamp = PyStr ''2024-05-01T12:00:00''\<rparr>,
            \<lparr>requests = [\<lparr>req_cve_id = PyStr ''CVE-2024-0003'', req_description = siemens_description,
                           req_cvss = PyNum (98 / 10)\<rparr>], clock_reads = 1\<rparr>)"
proof -
  have d: "fmlookup siemens_candidate ''description'' = Some (PyStr siemens_description)"
    by (simp add: siemens_candidate_def)
  have c: "fmlookup siemens_candidate ''cve_id'' = Some (PyStr ''CVE-2024-0003'')"
    by (simp add: siemens_candidate_def)
  have s: "fmlookup siemens_candidate ''cvss_score'' = Some (PyNum (98 / 10))"
    by (simp add: siemens_candidate_def)
  have r: "oracle_reply (oracle_says flag_true_text) w0
        (build_request (PyStr ''CVE-2024-0003'') siemens_description (PyNum (98 / 10)))
       = Inr (PyDict (fmap_of_list [(''is_ot_related'', PyTrue), (''risk_explanation'', PyStr ''Stops the line'')]))"
    by (simp add: oracle_reply_says strip_texts loads_texts)
  have f: "fmlookup (fmap_of_list [(''is_ot_related'', PyTrue), (''risk_explanation'', PyStr ''Stops the line'')])
             ''is_ot_related'' = Some PyTrue"
    by simp
  have n: "now_iso (oracle_says flag_true_text) 0 = ''2024-05-01T12:00:00''"
    by (simp add: oracle_says_def clock0_def)
  show ?thesis
    using siemens_scenario [OF d c s r f] d c s r
    by (simp add: n py_get_def log_request_def build_request_def w0_def)
qed

text \<open>
  C10, as stated: the answer \<open>[]\<close> decodes without error and holds no relevance flag,
  yet the classifier returns the rule-based threat: \<open>.get\<close> on a list raises inside
  the \<open>try\<close> block.
\<close>

theorem flagless_array_is_reported:
  "oracle_reply (oracle_says ''[]'') w0
      (build_request (PyStr ''CVE-2024-0001'') ''Flaw in PLC'' (PyNum (75 / 10))) = Inr (PyList [])
   \<and> analyze_with_llm (oracle_says ''[]'') w0 plc_candidate =
       Inr (Some \<lparr>cve_id = PyStr ''CVE-2024-0001'',
                  cvss_score = PyNum (75 / 10),
                  description = PyStr ''Flaw in PLC'',
                  ai_insight = PyStr ''Rule-based OT detection (LLM unavailable)'',
                  ot_keywords_found = PyList [PyStr ''PLC''],
                  timestamp = PyStr ''2024-05-01T12:00:00''\<rparr>,
            \<lparr>requests = [\<lparr>req_cve_id = PyStr ''CVE-2024-0001'', req_description = ''Flaw in PLC'',
                           req_cvss = PyNum (75 / 10)\<rparr>], clock_reads = 1\<rparr>)"
proof -
  have d: "fmlookup plc_candidate ''description'' = Some (PyStr ''Flaw in PLC'')"
    by (simp add: plc_candidate_def)
  have c: "fmlookup plc_candidate ''cve_id'' = Some (PyStr ''CVE-2024-0001'')"
    by (simp add: plc_candidate_def)
  have s: "py_get plc_candidate ''cvss_score'' (PyNum 0) = PyNum (75 / 10)"
    by (simp add: plc_candidate_def py_get_def)
  have r: "oracle_reply (oracle_says ''[]'') w0
      (build_request (PyStr ''CVE-2024-0001'') ''Flaw in PLC'' (PyNum (75 / 10))) = Inr (PyList [])"
    by (simp add: oracle_reply_says strip_texts loads_texts)
  have n: "now_iso (oracle_says ''[]'') 0 = ''2024-05-01T12:00:00''"
    by (simp add: oracle_says_def clock0_def)
  have "llm_try (oracle_says ''[]'') w0 (PyStr ''CVE-2024-0001'') ''Flaw in PLC'' (PyNum (75 / 10)) [''PLC'']
          = (Inl AttributeError,
             log_request w0 (build_request (PyStr ''CVE-2024-0001'') ''Flaw in PLC'' (PyNum (75 / 10))))"
    using r by (simp add: llm_try_not_object)
  then show ?thesis
    using r
    by (simp add: analyze_unfold [OF d c] s found_keywords_plc fallback_insight_def n
          log_request_def build_request_def w0_def)
qed

text \<open>
  C10, amended. A candidate whose description matches at least one term, for which the
  answer of the oracle decodes to an object without the key \<open>is_ot_related\<close>: the
  classifier returns nothing, after the one call of the oracle; for the same candidate in
  the same world an oracle whose call or decoding raises makes it return a threat.
\<close>

theorem flagless_object_fails_closed:
  assumes "fmlookup cve_data ''description'' = Some (PyStr descr)"
      and "fmlookup cve_data ''cve_id'' = Some cid"
      and "found_keywords descr \<noteq> []"
      and "oracle_reply sv w (build_request cid descr (py_get cve_data ''cvss_score'' (PyNum 0))) = Inr (PyDict answer)"
      and "fmlookup answer ''is_ot_related'' = None"
  shows "analyze_with_llm sv w cve_data =
           Inr (None, log_request w (build_request cid descr (py_get cve_data ''cvss_score'' (PyNum 0))))
         \<and> (\<forall>sv' e. oracle_reply sv' w (build_request cid descr (py_get cve_data ''cvss_score'' (PyNum 0))) = Inl e
               \<longrightarrow> (\<exists>threat w'. analyze_with_llm sv' w cve_data = Inr (Some threat, w')))"
proof -
  have "\<not> py_truthy (py_get answer ''is_ot_related'' PyFalse)"
    using assms(5) by (simp add: py_get_def)
  then have "analyze_with_llm sv w cve_data =
           Inr (None, log_request w (build_request cid descr (py_get cve_data ''cvss_score'' (PyNum 0))))"
    using assms(1-4) by (simp add: analyze_unfold llm_try_object)
  moreover have "\<exists>threat w'. analyze_with_llm sv' w cve_data = Inr (Some threat, w')"
    if "oracle_reply sv' w (build_request cid descr (py_get cve_data ''cvss_score'' (PyNum 0))) = Inl e"
    for sv' e
    using that assms(1-3) by (simp add: analyze_unfold llm_try_raises)
  ultimately show ?thesis by blast
qed

theorem flagless_object_fails_closed_witness:
  "fmlookup plc_candidate ''description'' = Some (PyStr ''Flaw in PLC'')
   \<and> fmlookup plc_candidate ''cve_id'' = Some (PyStr ''CVE-2024-0001'')
   \<and> found_keywords ''Flaw in PLC'' \<noteq> []
   \<and> oracle_reply (oracle_says ''{}'') w0
        (build_request (PyStr ''CVE-2024-0001'') ''Flaw in PLC'' (PyNum (75 / 10))) = Inr (PyDict fmempty)
   \<and> fmlookup (fmempty :: pydict) ''is_ot_related'' = None
   \<and> analyze_with_llm (oracle_says ''{}'') w0 plc_candidate =
       Inr (None, \<lparr>requests = [\<lparr>req_cve_id = PyStr ''CVE-2024-0001'', req_description = ''Flaw in PLC'',
                                 req_cvss = PyNum (75 / 10)\<rparr>], clock_reads = 0\<rparr>)
   \<and> oracle_reply oracle_down w0
        (build_request (PyStr ''CVE-2024-0001'') ''Flaw in PLC'' (PyNum (75 / 10))) = Inl APIError
   \<and> (\<exists>threat w'. analyze_with_llm oracle_down w0 plc_candidate = Inr (Some threat, w'))"
proof -
  have d: "fmlookup plc_candidate ''description'' = Some (PyStr ''Flaw in PLC'')"
    by (simp add: plc_candidate_def)
  have c: "fmlookup plc_candidate ''cve_id'' = Some (PyStr ''CVE-2024-0001'')"
    by (simp add: plc_candidate_def)
  have s: "py_get plc_candidate ''cvss_score'' (PyNum 0) = PyNum (75 / 10)"
    by (simp add: plc_candidate_def py_get_def)
  have k: "found_keywords ''Flaw in PLC'' \<noteq> []"
    by (simp add: found_keywords_plc)
  have r: "oracle_reply (oracle_says ''{}'') w0
        (build_request (PyStr ''CVE-2024-0001'') ''Flaw in PLC'' (py_get plc_candidate ''cvss_score'' (PyNum 0)))
       = Inr (PyDict fmempty)"
    by (simp add: oracle_reply_says strip_texts loads_texts)
  have f: "fmlookup (fmempty :: pydict) ''is_ot_related'' = None"
    by simp
  have down: "oracle_reply oracle_down w0
        (build_request (PyStr ''CVE-2024-0001'') ''Flaw in PLC'' (py_get plc_candidate ''cvss_score'' (PyNum 0)))
       = Inl APIError"
    by (simp add: oracle_reply_down)
  note main = flagless_object_fails_closed [OF d c k r f]
  from main have 1: "analyze_with_llm (oracle_says ''{}'') w0 plc_candidate =
       Inr (None, \<lparr>requests = [\<lparr>req_cve_id = PyStr ''CVE-2024-0001'', req_description = ''Flaw in PLC'',
                                 req_cvss = PyNum (75 / 10)\<rparr>], clock_reads = 0\<rparr>)"
    by (simp add: s log_request_def build_request_def w0_def)
  from main down have 2: "\<exists>threat w'. analyze_with_llm oracle_down w0 plc_candidate = Inr (Some threat, w')"
    by blast
  show ?thesis
    using d c k r f down 1 2 by (simp add: s)
qed

section \<open>Properties of the source client\<close>

lemma read_vulnerability_Some:
  assumes "read_vulnerability processed v = Inr (Some (cid, info))"
  shows "cid \<notin> processed \<and> fmlookup info ''cve_id'' = Some cid
         \<and> fmlookup info ''cvss_score'' \<noteq> None"
  using assms
  by (auto simp: read_vulnerability_def and_then_def split: sum.splits if_splits)

lemma fetch_loop_fresh:
  assumes "fetch_loop vs cves processed = (r, processed')"
  shows "processed \<subseteq> processed'
         \<and> (\<forall>out. r = Inr out \<longrightarrow>
               (\<exists>new. out = cves @ new
                  \<and> distinct (map (\<lambda>c. fmlookup c ''cve_id'') new)
                  \<and> (\<forall>c \<in> set new. \<exists>cid. fmlookup c ''cve_id'' = Some cid \<and> cid \<notin> processed \<and> cid \<in> processed')))"
  using assms
proof (induction vs arbitrary: cves processed)
  case Nil
  then show ?case by auto
next
  case (Cons v vs)
  show ?case
  proof (cases "read_vulnerability processed v")
    case (Inl e)
    with Cons.prems show ?thesis by auto
  next
    case (Inr res)
    show ?thesis
    proof (cases res)
      case None
      with Inr Cons.prems have "fetch_loop vs cves processed = (r, processed')" by simp
      from Cons.IH [OF this] show ?thesis .
    next
      case (Some p)
      obtain cid info where p: "p = (cid, info)" by (cases p)
      from Inr Some p have rv: "read_vulnerability processed v = Inr (Some (cid, info))" by simp
      from read_vulnerability_Some [OF rv]
      have fresh: "cid \<notin> processed" and key: "fmlookup info ''cve_id'' = Some cid" by simp_all
      from rv Cons.prems
      have step: "fetch_loop vs (cves @ [info]) (insert cid processed) = (r, processed')" by simp
      from Cons.IH [OF step]
      have sub: "insert cid processed \<subseteq> processed'"
        and rest: "\<forall>out. r = Inr out \<longrightarrow>
               (\<exists>new. out = (cves @ [info]) @ new
                  \<and> distinct (map (\<lambda>c. fmlookup c ''cve_id'') new)
                  \<and> (\<forall>c \<in> set new. \<exists>cid'. fmlookup c ''cve_id'' = Some cid'
                        \<and> cid' \<notin> insert cid processed \<and> cid' \<in> processed'))"
        by simp_all
      have "\<exists>new. out = cves @ new
                  \<and> distinct (map (\<lambda>c. fmlookup c ''cve_id'') new)
                  \<and> (\<forall>c \<in> set new. \<exists>cid. fmlookup c ''cve_id'' = Some cid \<and> cid \<notin> processed \<and> cid \<in> processed')"
        if "r = Inr out" for out
      proof -
        from rest that obtain new where
          o: "out = (cves @ [info]) @ new"
          and dn: "distinct (map (\<lambda>c. fmlookup c ''cve_id'') new)"
          and fn: "\<forall>c \<in> set new. \<exists>cid'. fmlookup c ''cve_id'' = Some cid'
                        \<and> cid' \<notin> insert cid processed \<and> cid' \<in> processed'"
          by blast
        have "out = cves @ (info # new)" using o by simp
        moreover have "distinct (map (\<lambda>c. fmlookup c ''cve_id'') (info # new))"
          using dn fn key by force
        moreover have "\<forall>c \<in> set (info # new). \<exists>cid. fmlookup c ''cve_id'' = Some cid
                         \<and> cid \<notin> processed \<and> cid \<in> processed'"
          using fn key fresh sub by auto
        ultimately show ?thesis by blast
      qed
      with sub show ?thesis by blast
    qed
  qed
qed

lemma fetch_latest_cves_fresh:
  assumes "fetch_latest_cves feed processed = (cves, processed')"
  shows "processed \<subseteq> processed'
         \<and> distinct (map (\<lambda>c. fmlookup c ''cve_id'') cves)
         \<and> (\<forall>c \<in> set cves. \<exists>cid. fmlookup c ''cve_id'' = Some cid \<and> cid \<notin> processed \<and> cid \<in> processed')"
proof -
  obtain r p where t: "fetch_try feed processed = (r, p)" by (cases "fetch_try feed processed")
  have "processed \<subseteq> p
         \<and> (\<forall>out. r = Inr out \<longrightarrow>
               (distinct (map (\<lambda>c. fmlookup c ''cve_id'') out)
                  \<and> (\<forall>c \<in> set out. \<exists>cid. fmlookup c ''cve_id'' = Some cid \<and> cid \<notin> processed \<and> cid \<in> p)))"
  proof (cases feed)
    case (Inl e)
    with t show ?thesis by (auto simp: fetch_try_def)
  next
    case (Inr data)
    show ?thesis
    proof (cases "and_then (attr_get data ''vulnerabilities'' (PyList [])) py_iter")
      case (Inl e)
      with Inr t show ?thesis by (auto simp: fetch_try_def)
    next
      case (Inr vs)
      with \<open>feed = Inr data\<close> t have "fetch_loop vs [] processed = (r, p)"
        by (simp add: fetch_try_def)
      from fetch_loop_fresh [OF this] show ?thesis by auto
    qed
  qed
  with t assms show ?thesis
    by (cases r) (auto simp: fetch_latest_cves_def)
qed

lemma fetch_calls_fresh:
  "distinct (map (\<lambda>c. fmlookup c ''cve_id'') (concat (fetch_calls feeds processed)))
   \<and> (\<forall>c \<in> set (concat (fetch_calls feeds processed)).
        \<exists>cid. fmlookup c ''cve_id'' = Some cid \<and> cid \<notin> processed)"
proof (induction feeds arbitrary: processed)
  case Nil
  show ?case by simp
next
  case (Cons feed feeds)
  obtain cves p where f: "fetch_latest_cves feed processed = (cves, p)"
    by (cases "fetch_latest_cves feed processed")
  from fetch_latest_cves_fresh [OF f]
  have sub: "processed \<subseteq> p"
    and d: "distinct (map (\<lambda>c. fmlookup c ''cve_id'') cves)"
    and fr: "\<forall>c \<in> set cves. \<exists>cid. fmlookup c ''cve_id'' = Some cid \<and> cid \<notin> processed \<and> cid \<in> p"
    by simp_all
  from Cons.IH [of p]
  have d': "distinct (map (\<lambda>c. fmlookup c ''cve_id'') (concat (fetch_calls feeds p)))"
    and fr': "\<forall>c \<in> set (concat (fetch_calls feeds p)). \<exists>cid. fmlookup c ''cve_id'' = Some cid \<and> cid \<notin> p"
    by simp_all
  have disj: "(\<lambda>c. fmlookup c ''cve_id'') ` set cves \<inter> (\<lambda>c. fmlookup c ''cve_id'') ` set (concat (fetch_calls feeds p)) = {}"
    using fr fr' by fastforce
  have "distinct (map (\<lambda>c. fmlookup c ''cve_id'') (cves @ concat (fetch_calls feeds p)))"
    using d d' disj by simp
  moreover have "\<forall>c \<in> set (cves @ concat (fetch_calls feeds p)).
        \<exists>cid. fmlookup c ''cve_id'' = Some cid \<and> cid \<notin> processed"
    using fr fr' sub by (simp only: set_append Un_iff) blast
  ultimately show ?case using f by simp
qed

lemma fetch_failure_returns_nothing:
  "fetch_latest_cves (Inl e) processed = ([], processed)"
  by (simp add: fetch_latest_cves_def fetch_try_def)

text \<open>The two answers of the feed used below, read record by record.\<close>

lemma read_unscored:
  "read_vulnerability {} unscored_entry =
     Inr (Some (PyStr ''CVE-2024-0001'', unscored_candidate))"
  by (simp add: read_vulnerability_def unscored_entry_def unscored_cve_def unscored_candidate_def and_then_def
        attr_get_def py_get_def extract_cvss_def)

lemma read_unscored_again:
  "read_vulnerability {PyStr ''CVE-2024-0001''} unscored_entry =
     Inr None"
  by (simp add: read_vulnerability_def unscored_entry_def unscored_cve_def and_then_def attr_get_def py_get_def)

lemma read_broken:
  "read_vulnerability {PyStr ''CVE-2024-0001''} broken_entry =
     Inl IndexError"
  by (simp add: read_vulnerability_def broken_entry_def broken_cve_def and_then_def attr_get_def py_get_def)

lemma fetch_unscored:
  "fetch_latest_cves (Inr unscored_feed) {} = ([unscored_candidate], {PyStr ''CVE-2024-0001''})"
  by (simp add: fetch_latest_cves_def fetch_try_def unscored_feed_def and_then_def attr_get_def
        py_get_def read_unscored)

lemma fetch_broken:
  "fetch_latest_cves (Inr broken_feed) {} = ([], {PyStr ''CVE-2024-0001''})"
  by (simp add: fetch_latest_cves_def fetch_try_def broken_feed_def and_then_def attr_get_def
        py_get_def read_unscored read_broken)

lemma fetch_unscored_again:
  "fetch_latest_cves (Inr unscored_feed) {PyStr ''CVE-2024-0001''} = ([], {PyStr ''CVE-2024-0001''})"
  by (simp add: fetch_latest_cves_def fetch_try_def unscored_feed_def and_then_def attr_get_def
        py_get_def read_unscored_again)

text \<open>
  C6. One client, two calls. The first answer of the feed holds a well-formed record
  \<open>CVE-2024-0001\<close> followed by a record whose list of descriptions is empty: reading
  the second raises \<open>IndexError\<close>, the call returns no record, and \<open>CVE-2024-0001\<close>
  stays in \<open>processed_cves\<close>. The second answer holds \<open>CVE-2024-0001\<close> alone and is
  read without failure; the call returns no record, although the record is in the window
  and no call of this client has returned it. A new client given the second answer alone
  returns the record.
\<close>

theorem seen_but_never_returned:
  "fetch_calls [Inr broken_feed, Inr unscored_feed] {} = [[], []]
   \<and> fetch_calls [Inr unscored_feed] {} = [[unscored_candidate]]"
  by (simp add: fetch_broken fetch_unscored fetch_unscored_again)

section \<open>Severity scores\<close>

lemma analyze_copies_score:
  assumes "analyze_with_llm sv w cve_data = Inr (Some threat, w')"
  shows "cvss_score threat = py_get cve_data ''cvss_score'' (PyNum 0)"
  using assms
  by (auto simp: analyze_with_llm_def llm_try_def and_then_def read_clock_def Let_def
      split: sum.splits option.splits pyval.splits if_splits prod.splits)

text \<open>
  C2. A record of the feed without a \<open>metrics\<close> block: the client stores \<open>None\<close>
  under the key \<open>cvss_score\<close> of the candidate, so the default \<open>0.0\<close> of
  \<open>cve_data.get('cvss_score', 0.0)\<close> is not taken, and the threat carries \<open>None\<close> as
  its score, both when the oracle confirms and when the oracle cannot be reached.
\<close>

theorem unscored_record_score_is_None:
  "fetch_latest_cves (Inr unscored_feed) {} = ([unscored_candidate], {PyStr ''CVE-2024-0001''})
   \<and> analyze_with_llm (oracle_says flag_true_text) w0 unscored_candidate =
       Inr (Some \<lparr>cve_id = PyStr ''CVE-2024-0001'',
                  cvss_score = PyNone,
                  description = PyStr ''Flaw in PLC'',
                  ai_insight = PyStr ''Stops the line'',
                  ot_keywords_found = PyList [PyStr ''PLC''],
                  timestamp = PyStr ''2024-05-01T12:00:00''\<rparr>,
            \<lparr>requests = [\<lparr>req_cve_id = PyStr ''CVE-2024-0001'', req_description = ''Flaw in PLC'',
                           req_cvss = PyStr ''Not specified''\<rparr>], clock_reads = 1\<rparr>)
   \<and> analyze_with_llm oracle_down w0 unscored_candidate =
       Inr (Some \<lparr>cve_id = PyStr ''CVE-2024-0001'',
                  cvss_score = PyNone,
                  description = PyStr ''Flaw in PLC'',
                  ai_insight = PyStr ''Rule-based OT detection (LLM unavailable)'',
                  ot_keywords_found = PyList [PyStr ''PLC''],
                  timestamp = PyStr ''2024-05-01T12:00:00''\<rparr>,
            \<lparr>requests = [\<lparr>req_cve_id = PyStr ''CVE-2024-0001'', req_description = ''Flaw in PLC'',
                           req_cvss = PyStr ''Not specified''\<rparr>], clock_reads = 1\<rparr>)"
proof -
  have d: "fmlookup unscored_candidate ''description'' = Some (PyStr ''Flaw in PLC'')"
    by (simp add: unscored_candidate_def)
  have c: "fmlookup unscored_candidate ''cve_id'' = Some (PyStr ''CVE-2024-0001'')"
    by (simp add: unscored_candidate_def)
  have s: "py_get unscored_candidate ''cvss_score'' (PyNum 0) = PyNone"
    by (simp add: unscored_candidate_def py_get_def)
  have r: "oracle_reply (oracle_says flag_true_text) w0 (build_request (PyStr ''CVE-2024-0001'') ''Flaw in PLC'' PyNone)
       = Inr (PyDict (fmap_of_list [(''is_ot_related'', PyTrue), (''risk_explanation'', PyStr ''Stops the line'')]))"
    by (simp add: oracle_reply_says strip_texts loads_texts)
  have n: "now_iso (oracle_says flag_true_text) 0 = ''2024-05-01T12:00:00''"
       "now_iso oracle_down 0 = ''2024-05-01T12:00:00''"
    by (simp_all add: oracle_says_def oracle_down_def clock0_def)
  have t: "llm_try (oracle_says flag_true_text) w0 (PyStr ''CVE-2024-0001'') ''Flaw in PLC'' PyNone [''PLC''] =
       (Inr (Some \<lparr>cve_id = PyStr ''CVE-2024-0001'',
                   cvss_score = PyNone,
                   description = PyStr ''Flaw in PLC'',
                   ai_insight = PyStr ''Stops the line'',
                   ot_keywords_found = PyList [PyStr ''PLC''],
                   timestamp = PyStr ''2024-05-01T12:00:00''\<rparr>),
            \<lparr>requests = [\<lparr>req_cve_id = PyStr ''CVE-2024-0001'', req_description = ''Flaw in PLC'',
                           req_cvss = PyStr ''Not specified''\<rparr>], clock_reads = 1\<rparr>)"
    using llm_try_object [OF r, of "[''PLC'']"]
    by (simp add: py_get_def n log_request_def build_request_def w0_def Let_def)
  have 1: "analyze_with_llm (oracle_says flag_true_text) w0 unscored_candidate =
       Inr (Some \<lparr>cve_id = PyStr ''CVE-2024-0001'',
                  cvss_score = PyNone,
                  description = PyStr ''Flaw in PLC'',
                  ai_insight = PyStr ''Stops the line'',
                  ot_keywords_found = PyList [PyStr ''PLC''],
                  timestamp = PyStr ''2024-05-01T12:00:00''\<rparr>,
            \<lparr>requests = [\<lparr>req_cve_id = PyStr ''CVE-2024-0001'', req_description = ''Flaw in PLC'',
                           req_cvss = PyStr ''Not specified''\<rparr>], clock_reads = 1\<rparr>)"
    by (simp add: analyze_unfold [OF d c] s found_keywords_plc t)
  have 2: "analyze_with_llm oracle_down w0 unscored_candidate =
       Inr (Some \<lparr>cve_id = PyStr ''CVE-2024-0001'',
                  cvss_score = PyNone,
                  description = PyStr ''Flaw in PLC'',
                  ai_insight = PyStr ''Rule-based OT detection (LLM unavailable)'',
                  ot_keywords_found = PyList [PyStr ''PLC''],
                  timestamp = PyStr ''2024-05-01T12:00:00''\<rparr>,
            \<lparr>requests = [\<lparr>req_cve_id = PyStr ''CVE-2024-0001'', req_description = ''Flaw in PLC'',
                           req_cvss = PyStr ''Not specified''\<rparr>], clock_reads = 1\<rparr>)"
    by (simp add: analyze_unfold [OF d c] s found_keywords_plc llm_try_raises [OF oracle_reply_down]
          fallback_insight_def n log_request_def build_request_def w0_def)
  show ?thesis using fetch_unscored 1 2 by simp
qed

section \<open>Properties of the threat store\<close>

lemma add_threats_append: "add_threats store (xs @ ys) = add_threats (add_threats store xs) ys"
  by (induction xs arbitrary: store) simp_all

lemma foldl_add_threats: "foldl add_threats store cycles = add_threats store (concat cycles)"
  by (induction cycles arbitrary: store) (simp_all add: add_threats_append)

lemma add_one_distinct:
  assumes "distinct (map cve_id store)"
  shows "distinct (map cve_id
           (if list_ex (\<lambda>t. cve_id t = cve_id threat) store then store else store @ [threat]))"
  using assms by (auto simp: list_ex_iff)

lemma add_threats_distinct:
  "distinct (map cve_id store) \<Longrightarrow> distinct (map cve_id (add_threats store batch))"
proof (induction batch arbitrary: store)
  case Nil
  then show ?case by simp
next
  case (Cons threat rest)
  from Cons.IH [OF add_one_distinct [OF Cons.prems, of threat]]
  show ?case by simp
qed

lemma add_one_ids:
  "cve_id ` set (if list_ex (\<lambda>t. cve_id t = cve_id threat) store then store else store @ [threat])
     = insert (cve_id threat) (cve_id ` set store)"
  by (auto simp: list_ex_iff intro: rev_image_eqI)

lemma add_threats_ids:
  "cve_id ` set (add_threats store batch) = cve_id ` set store \<union> cve_id ` set batch"
proof (induction batch arbitrary: store)
  case Nil
  show ?case by simp
next
  case (Cons threat rest)
  have "cve_id ` set (add_threats store (threat # rest))
          = insert (cve_id threat) (cve_id ` set store) \<union> cve_id ` set rest"
    using Cons.IH [of "if list_ex (\<lambda>t. cve_id t = cve_id threat) store then store else store @ [threat]"]
    by (simp only: add_threats.simps add_one_ids)
  then show ?case by auto
qed

lemma find_append:
  "find P (xs @ ys) = (case find P xs of Some x \<Rightarrow> Some x | None \<Rightarrow> find P ys)"
  by (induction xs) simp_all

lemma find_first_in_distinct:
  assumes "distinct (map f xs)" and "x \<in> set xs"
  shows "find (\<lambda>t. f t = f x) xs = Some x"
  using assms by (induction xs) (auto simp: image_iff)

lemma add_threats_first:
  assumes "distinct (map cve_id store)" and "x \<in> set (add_threats store batch)"
  shows "find (\<lambda>t. cve_id t = cve_id x) (store @ batch) = Some x"
  using assms
proof (induction batch arbitrary: store)
  case Nil
  then show ?case by (simp add: find_first_in_distinct)
next
  case (Cons threat rest)
  show ?case
  proof (cases "list_ex (\<lambda>t. cve_id t = cve_id threat) store")
    case True
    with Cons.prems have x: "x \<in> set (add_threats store rest)" by simp
    from Cons.IH [OF Cons.prems(1) x]
    have f: "find (\<lambda>t. cve_id t = cve_id x) (store @ rest) = Some x" .
    show ?thesis
    proof (cases "find (\<lambda>t. cve_id t = cve_id x) store")
      case (Some y)
      with f show ?thesis by (simp add: find_append)
    next
      case None
      then have "\<forall>t \<in> set store. cve_id t \<noteq> cve_id x" by (simp add: find_None_iff)
      with True have "cve_id threat \<noteq> cve_id x" by (auto simp: list_ex_iff)
      with f None show ?thesis by (simp add: find_append)
    qed
  next
    case False
    then have d: "distinct (map cve_id (store @ [threat]))"
      using Cons.prems(1) by (auto simp: list_ex_iff)
    from False Cons.prems have x: "x \<in> set (add_threats (store @ [threat]) rest)" by simp
    from Cons.IH [OF d x] show ?thesis by simp
  qed
qed

lemma add_threats_keeps_store: "\<exists>new. add_threats store batch = store @ new"
proof (induction batch arbitrary: store)
  case Nil
  show ?case by simp
next
  case (Cons threat rest)
  show ?case
  proof (cases "list_ex (\<lambda>t. cve_id t = cve_id threat) store")
    case True
    with Cons.IH [of store] show ?thesis by simp
  next
    case False
    from Cons.IH [of "store @ [threat]"] obtain new
      where "add_threats (store @ [threat]) rest = (store @ [threat]) @ new" by blast
    with False have "add_threats store (threat # rest) = store @ (threat # new)" by simp
    then show ?thesis by blast
  qed
qed

text \<open>
  C3. A store whose entries have pairwise different identifiers (the empty store is one),
  and any sequence of cycles, each appending a batch that may repeat identifiers. After
  them the identifiers of the store are still pairwise different; they are those of the
  store and of all batches; every entry of the store is the first threat with its
  identifier in the store followed by the batches in order; the old entries are all
  there, in place; and appending a threat whose identifier the store already holds leaves
  the store as it is.
\<close>

theorem store_first_write_wins:
  assumes "distinct (map cve_id store)"
  shows "distinct (map cve_id (foldl add_threats store cycles))
         \<and> cve_id ` set (foldl add_threats store cycles) = cve_id ` set (store @ concat cycles)
         \<and> (\<forall>x \<in> set (foldl add_threats store cycles).
               find (\<lambda>t. cve_id t = cve_id x) (store @ concat cycles) = Some x)
         \<and> (\<exists>new. foldl add_threats store cycles = store @ new)
         \<and> (\<forall>threat. cve_id threat \<in> cve_id ` set store \<longrightarrow> add_threats store [threat] = store)"
proof (intro conjI)
  show "distinct (map cve_id (foldl add_threats store cycles))"
    using assms by (simp add: foldl_add_threats add_threats_distinct)
  show "cve_id ` set (foldl add_threats store cycles) = cve_id ` set (store @ concat cycles)"
    by (simp only: foldl_add_threats add_threats_ids set_append image_Un)
  show "\<forall>x \<in> set (foldl add_threats store cycles).
          find (\<lambda>t. cve_id t = cve_id x) (store @ concat cycles) = Some x"
    using assms by (simp only: foldl_add_threats) (blast intro: add_threats_first)
  show "\<exists>new. foldl add_threats store cycles = store @ new"
    by (simp only: foldl_add_threats add_threats_keeps_store)
  show "\<forall>threat. cve_id threat \<in> cve_id ` set store \<longrightarrow> add_threats store [threat] = store"
    by (auto simp: list_ex_iff)
qed

theorem store_first_write_wins_witness:
  "distinct (map cve_id [threat_a])
   \<and> foldl add_threats [threat_a] [[threat_b, threat_a_later], [threat_b, threat_a_later]] = [threat_a, threat_b]
   \<and> find (\<lambda>t. cve_id t = cve_id threat_a) ([threat_a] @ concat [[threat_b, threat_a_later], [threat_b, threat_a_later]]) = Some threat_a
   \<and> add_threats [threat_a] [threat_a_later] = [threat_a]"
proof -
  have d: "distinct (map cve_id [threat_a])" by simp
  have e: "foldl add_threats [threat_a] [[threat_b, threat_a_later], [threat_b, threat_a_later]] = [threat_a, threat_b]"
    by (simp add: threat_a_def threat_b_def threat_a_later_def)
  have i: "cve_id threat_a_later \<in> cve_id ` set [threat_a]"
    by (simp add: threat_a_def threat_a_later_def)
  note main = store_first_write_wins [OF d, of "[[threat_b, threat_a_later], [threat_b, threat_a_later]]"]
  from main e have "find (\<lambda>t. cve_id t = cve_id threat_a) ([threat_a] @ concat [[threat_b, threat_a_later], [threat_b, threat_a_later]]) = Some threat_a"
    by simp
  moreover from main i have "add_threats [threat_a] [threat_a_later] = [threat_a]"
    by blast
  ultimately show ?thesis using d e by simp
qed

section \<open>Persistence\<close>

lemma OTThreat_of_asdict: "OTThreat_of (asdict threat) = Inr threat"
  by (auto simp: OTThreat_of_def asdict_def field_names_def py_get_def)

lemma OTThreats_of_asdict: "OTThreats_of (map asdict threats) = Inr threats"
  by (induction threats) (simp_all add: OTThreat_of_asdict and_then_def)

text \<open>
  C7. For every file system and every list of threats, empty or not: after
  \<open>save_threats\<close> the store of a new agent, which starts empty and loads the file, is
  the list that was saved, every field of every threat the same.
\<close>

theorem save_then_load_roundtrip:
  "new_agent_threats (save_threats fs ot_threats) = Inr ot_threats"
  by (simp add: new_agent_threats_def load_existing_threats_def save_threats_def
        OTThreats_of_asdict and_then_def)

theorem save_then_load_roundtrip_witness:
  "new_agent_threats (save_threats Map.empty []) = Inr []
   \<and> new_agent_threats (save_threats Map.empty [threat_a, threat_b]) = Inr [threat_a, threat_b]"
  using save_then_load_roundtrip [of Map.empty "[]"]
    save_then_load_roundtrip [of Map.empty "[threat_a, threat_b]"]
  by simp

end
